theory Spec2Isabelle
  imports Complex_Main "HOL-Library.Word"
begin

section \<open>ID photo resizer: the size-targeting encode pipeline of src/App.tsx\<close>

text \<open>
  The development embeds \<^verbatim>\<open>processImage\<close> (src/App.tsx, lines 48-119) and the constants it
  reads (lines 11-15). The browser services the function calls (image decoding, the 2D
  canvas context, the JPEG encoder behind \<^verbatim>\<open>canvas.toBlob\<close>) are not part of the
  repository; they are parameters of the model, collected in the record \<open>env\<close>.
\<close>

subsection \<open>Configuration constants (lines 11-15)\<close>

definition TARGET_WIDTH :: nat where "TARGET_WIDTH = 295"
definition TARGET_HEIGHT :: nat where "TARGET_HEIGHT = 413"
definition MIN_KB :: nat where "MIN_KB = 150"
definition MAX_KB :: nat where "MAX_KB = 250"
definition PREFERRED_KB :: nat where "PREFERRED_KB = 200"

subsection \<open>Data\<close>

type_synonym byte = "8 word"

text \<open>A \<^verbatim>\<open>Blob\<close>: its bytes and its MIME type; \<^verbatim>\<open>blob.size\<close> is the number of bytes.\<close>

record blob =
  blob_bytes :: "byte list"
  blob_type :: string

definition blob_size :: "blob \<Rightarrow> nat" where
  "blob_size b = length (blob_bytes b)"

text \<open>A decoded \<^verbatim>\<open>HTMLImageElement\<close>: its intrinsic size and its pixel data.\<close>

record source_image =
  naturalWidth :: nat
  naturalHeight :: nat
  img_data :: "byte list"

text \<open>
  The canvas together with its 2D context. The drawing calls are kept in the order they
  were issued: a fill of a rectangle with the fill style current at the call, and the
  drawing of a source rectangle of an image onto a destination rectangle.
\<close>

datatype draw_op =
  FillRect string int int int int
| DrawImage source_image int int int int int int int int

record canvas =
  width :: nat
  height :: nat
  fillStyle :: string
  ops :: "draw_op list"

text \<open>\<^verbatim>\<open>document.createElement('canvas')\<close>: 300 x 150, black fill style, nothing drawn.\<close>

definition createElement_canvas :: canvas where
  "createElement_canvas = \<lparr>width = 300, height = 150, fillStyle = ''#000000'', ops = []\<rparr>"

definition fillRect :: "canvas \<Rightarrow> int \<Rightarrow> int \<Rightarrow> int \<Rightarrow> int \<Rightarrow> canvas" where
  "fillRect ctx x y w h = ctx\<lparr>ops := ops ctx @ [FillRect (fillStyle ctx) x y w h]\<rparr>"

text \<open>
  \<^verbatim>\<open>ctx.drawImage(img, dx, dy, dw, dh)\<close>: the five-argument form takes the whole image as
  its source rectangle.
\<close>

definition drawImage :: "canvas \<Rightarrow> source_image \<Rightarrow> int \<Rightarrow> int \<Rightarrow> int \<Rightarrow> int \<Rightarrow> canvas" where
  "drawImage ctx img dx dy dw dh =
     ctx\<lparr>ops := ops ctx @
       [DrawImage img 0 0 (int (naturalWidth img)) (int (naturalHeight img)) dx dy dw dh]\<rparr>"

text \<open>The pixels of the canvas that lie in the destination rectangle of a drawing call.\<close>

fun dest_covers :: "draw_op \<Rightarrow> int \<Rightarrow> int \<Rightarrow> bool" where
  "dest_covers (FillRect c x y w h) px py = (x \<le> px \<and> px < x + w \<and> y \<le> py \<and> py < y + h)"
| "dest_covers (DrawImage img sx sy sw sh dx dy dw dh) px py =
     (dx \<le> px \<and> px < dx + dw \<and> dy \<le> py \<and> py < dy + dh)"

text \<open>What is thrown inside the \<^verbatim>\<open>try\<close> block, and what the user is shown.\<close>

datatype js_error =
  ImageLoadError
| Error string
| RangeError

text \<open>
  The two messages the component passes to \<^verbatim>\<open>setError\<close>: the one of \<^verbatim>\<open>handleFileChange\<close>
  (line 31, in English "Please upload an image file (JPG/PNG)") and the one of
  \<^verbatim>\<open>processImage\<close> (line 114, in English "An error occurred while processing the image,
  please retry.").
\<close>

datatype ui_message = PleaseUploadImageFile | ProcessingFailedPleaseRetry

text \<open>The calls to the browser services, with their arguments, in the order they are made.\<close>

datatype call =
  CallImageLoad string
| CallGetContext string
| CallToBlob canvas string real

record env =
  loadImage :: "string \<Rightarrow> source_image option"
  getContext :: "string \<Rightarrow> bool"
  toBlob :: "canvas \<Rightarrow> string \<Rightarrow> real \<Rightarrow> blob option"

text \<open>
  The component state \<^verbatim>\<open>processImage\<close> reads and writes (lines 18-23), the console, and
  the log of service calls. An object URL is identified with the blob it refers to.
\<close>

record app_state =
  image' :: "string option"
  processing :: bool
  processedImage :: "blob option"
  processedSize :: "nat option"
  error :: "ui_message option"
  console :: "js_error list"
  calls :: "call list"

subsection \<open>Typed arrays (lines 96-103)\<close>

text \<open>\<^verbatim>\<open>new Uint8Array(n)\<close>: n zero bytes.\<close>

definition new_Uint8Array :: "nat \<Rightarrow> byte list" where
  "new_Uint8Array n = replicate n 0"

text \<open>\<^verbatim>\<open>target.set(source, offset)\<close>: a RangeError when the source does not fit.\<close>

definition u8_set :: "byte list \<Rightarrow> byte list \<Rightarrow> nat \<Rightarrow> js_error + byte list" where
  "u8_set target source offset =
     (if offset + length source > length target then Inl RangeError
      else Inr (take offset target @ source @ drop (offset + length source) target))"

text \<open>
  The loop of lines 101-103, started at index \<open>i\<close>. A store into a \<^verbatim>\<open>Uint8Array\<close>
  keeps the value modulo 256, which is what the conversion to \<open>byte\<close> does.
\<close>

function fill_loop :: "nat \<Rightarrow> byte list \<Rightarrow> byte list" where
  "fill_loop i paddedBuffer =
     (if i < length paddedBuffer
      then fill_loop (i + 1) (paddedBuffer[i := of_nat (i mod 255)])
      else paddedBuffer)"
  by pat_completeness auto
termination
  by (relation "measure (\<lambda>(i, paddedBuffer). length paddedBuffer - i)") auto

declare fill_loop.simps [simp del]

subsection \<open>The stages of processImage\<close>

text \<open>Lines 61-63: the canvas at the target size.\<close>

definition sizedCanvas :: canvas where
  "sizedCanvas = createElement_canvas\<lparr>width := TARGET_WIDTH, height := TARGET_HEIGHT\<rparr>"

text \<open>Lines 68-71: white background, then the source drawn over the whole canvas.\<close>

definition paintCanvas :: "canvas \<Rightarrow> source_image \<Rightarrow> canvas" where
  "paintCanvas ctx0 img =
     (let ctx = ctx0\<lparr>fillStyle := ''#FFFFFF''\<rparr>;
          ctx = fillRect ctx 0 0 (int TARGET_WIDTH) (int TARGET_HEIGHT);
          ctx = drawImage ctx img 0 0 (int TARGET_WIDTH) (int TARGET_HEIGHT)
      in ctx)"

text \<open>
  Lines 85-107: the size comparison and the padding. The result is the pair
  \<^verbatim>\<open>(finalBlob, currentSize)\<close> as it stands at line 108.
\<close>

definition padToTarget :: "blob \<Rightarrow> js_error + (blob option \<times> nat)" where
  "padToTarget finalBlob =
     (let currentSize = blob_size finalBlob;
          targetSizeInBytes = PREFERRED_KB * 1024
      in if currentSize < targetSizeInBytes then
           (let arrayBuffer = blob_bytes finalBlob;
                paddingSize = int targetSizeInBytes - int currentSize
            in if paddingSize > 0 then
                 (case u8_set (new_Uint8Array (length arrayBuffer + nat paddingSize))
                         arrayBuffer 0 of
                    Inl e \<Rightarrow> Inl e
                  | Inr paddedBuffer0 \<Rightarrow>
                      (let paddedBuffer = fill_loop (length arrayBuffer) paddedBuffer0;
                           finalBlob' = \<lparr>blob_bytes = paddedBuffer, blob_type = ''image/jpeg''\<rparr>
                       in Inr (Some finalBlob', blob_size finalBlob')))
               else Inr (Some finalBlob, currentSize))
         else Inr (Some finalBlob, currentSize))"

text \<open>
  Lines 54-107, the body of the \<^verbatim>\<open>try\<close> block: the service calls made, and either the
  error thrown or the pair \<^verbatim>\<open>(finalBlob, currentSize)\<close>.
\<close>

definition tryBlock :: "env \<Rightarrow> string \<Rightarrow> call list \<times> (js_error + (blob option \<times> nat))" where
  "tryBlock e src =
     (case loadImage e src of
        None \<Rightarrow> ([CallImageLoad src], Inl ImageLoadError)
      | Some img \<Rightarrow>
          (let canvas = sizedCanvas in
           if \<not> getContext e ''2d''
           then ([CallImageLoad src, CallGetContext ''2d''],
                 Inl (Error ''Canvas context failed''))
           else
             (let ctx = paintCanvas canvas img in
              case toBlob e ctx ''image/jpeg'' 1 of
                None \<Rightarrow>
                  ([CallImageLoad src, CallGetContext ''2d'', CallToBlob ctx ''image/jpeg'' 1],
                   Inl (Error ''Blob generation failed''))
              | Some finalBlob \<Rightarrow>
                  ([CallImageLoad src, CallGetContext ''2d'', CallToBlob ctx ''image/jpeg'' 1],
                   padToTarget finalBlob))))"

text \<open>
  Lines 48-119. The guard \<^verbatim>\<open>if (!image) return\<close> of line 49 leaves at once when
  \<^verbatim>\<open>image\<close> is \<^verbatim>\<open>null\<close> or the empty string.
\<close>

definition processImage :: "env \<Rightarrow> app_state \<Rightarrow> app_state" where
  "processImage e s =
     (case image' s of
        None \<Rightarrow> s
      | Some src \<Rightarrow>
          if src = [] then s else
          (let s1 = s\<lparr>processing := True, error := None\<rparr>;
               (cs, r) = tryBlock e src;
               s2 = s1\<lparr>calls := calls s1 @ cs\<rparr>;
               s3 = (case r of
                       Inr (finalBlob, currentSize) \<Rightarrow>
                         (case finalBlob of
                            Some b \<Rightarrow> s2\<lparr>processedImage := Some b,
                                         processedSize := Some currentSize\<rparr>
                          | None \<Rightarrow> s2)
                     | Inl err \<Rightarrow>
                         s2\<lparr>error := Some ProcessingFailedPleaseRetry,
                            console := console s2 @ [err]\<rparr>)
           in s3\<lparr>processing := False\<rparr>))"

subsection \<open>Predicates on the filler, and concrete inputs\<close>

text \<open>A byte sequence that is one byte value repeated, and one that is zero throughout.\<close>

definition all_identical :: "byte list \<Rightarrow> bool" where
  "all_identical xs = (case xs of [] \<Rightarrow> True | x # ys \<Rightarrow> list_all (\<lambda>y. y = x) ys)"

definition all_zero :: "byte list \<Rightarrow> bool" where
  "all_zero xs = list_all (\<lambda>y. y = 0) xs"

text \<open>
  An uploaded 800 x 600 photo, the state right after the upload, and a browser whose JPEG
  encoder returns the given bytes.
\<close>

definition photo_url :: string where
  "photo_url = ''data:image/png;base64,iVBORw0KGgo=''"

definition photo :: source_image where
  "photo = \<lparr>naturalWidth = 800, naturalHeight = 600, img_data = [137, 80, 78, 71]\<rparr>"

definition uploaded :: app_state where
  "uploaded = \<lparr>image' = Some photo_url, processing = False, processedImage = None,
     processedSize = None, error = None, console = [], calls = []\<rparr>"

definition jpeg_of :: "byte list \<Rightarrow> blob" where
  "jpeg_of bs = \<lparr>blob_bytes = bs, blob_type = ''image/jpeg''\<rparr>"

definition browser :: "byte list \<Rightarrow> env" where
  "browser bs =
     \<lparr>loadImage = (\<lambda>src. if src = photo_url then Some photo else None),
      getContext = (\<lambda>kind. kind = ''2d''),
      toBlob = (\<lambda>c mime q. Some (jpeg_of bs))\<rparr>"

text \<open>Browsers in which one service fails: decoding, the context, the encoder.\<close>

definition browser_no_decode :: env where
  "browser_no_decode = (browser [])\<lparr>loadImage := (\<lambda>src. None)\<rparr>"

definition browser_no_context :: env where
  "browser_no_context = (browser [])\<lparr>getContext := (\<lambda>kind. False)\<rparr>"

definition browser_no_blob :: env where
  "browser_no_blob = (browser [])\<lparr>toBlob := (\<lambda>c mime q. None)\<rparr>"

text \<open>A four-byte baseline encode: the start and end markers of a JPEG stream.\<close>

definition tiny_jpeg :: "byte list" where
  "tiny_jpeg = [255, 216, 255, 217]"

section \<open>Properties\<close>

subsection \<open>The fill loop\<close>

lemma fill_loop_length: "length (fill_loop i buf) = length buf"
proof (induction i buf rule: fill_loop.induct)
  case (1 i paddedBuffer)
  then show ?case by (subst fill_loop.simps) simp
qed

lemma fill_loop_nth:
  "j < length buf \<Longrightarrow> fill_loop i buf ! j = (if i \<le> j then of_nat (j mod 255) else buf ! j)"
proof (induction i buf rule: fill_loop.induct)
  case (1 i paddedBuffer)
  show ?case
  proof (cases "i < length paddedBuffer")
    case True
    have "fill_loop i paddedBuffer = fill_loop (i + 1) (paddedBuffer[i := of_nat (i mod 255)])"
      using True by (subst fill_loop.simps) simp
    moreover have "fill_loop (i + 1) (paddedBuffer[i := of_nat (i mod 255)]) ! j =
        (if i + 1 \<le> j then of_nat (j mod 255) else (paddedBuffer[i := of_nat (i mod 255)]) ! j)"
      using "1.IH"[OF True] "1.prems" by simp
    ultimately show ?thesis
      using "1.prems" by (cases "i = j") (auto simp: nth_list_update)
  next
    case False
    then have "fill_loop i paddedBuffer = paddedBuffer" by (subst fill_loop.simps) simp
    with False "1.prems" show ?thesis by simp
  qed
qed

lemma fill_loop_eq:
  "i \<le> length buf \<Longrightarrow>
   fill_loop i buf = take i buf @ map (\<lambda>j. of_nat (j mod 255)) [i..<length buf]"
  by (rule nth_equalityI) (auto simp: fill_loop_length fill_loop_nth nth_append)

lemma u8_set_fresh:
  "u8_set (new_Uint8Array (length src + n)) src 0 = Inr (src @ replicate n 0)"
  by (simp add: u8_set_def new_Uint8Array_def)

subsection \<open>The padding stage\<close>

lemma padToTarget_small:
  assumes "blob_size b < PREFERRED_KB * 1024"
  shows "padToTarget b =
    Inr (Some \<lparr>blob_bytes = blob_bytes b @
                  map (\<lambda>j. of_nat (j mod 255)) [blob_size b..<PREFERRED_KB * 1024],
               blob_type = ''image/jpeg''\<rparr>, PREFERRED_KB * 1024)"
proof -
  let ?L = "length (blob_bytes b)"
  let ?P = "PREFERRED_KB * 1024"
  have lt: "?L < ?P" using assms by (simp add: blob_size_def)
  have n: "nat (int ?P - int ?L) = ?P - ?L" by simp
  have fl: "fill_loop ?L (blob_bytes b @ replicate (?P - ?L) 0) =
      blob_bytes b @ map (\<lambda>j. of_nat (j mod 255)) [?L..<?P]"
    using lt by (subst fill_loop_eq) simp_all
  show ?thesis
    using lt unfolding padToTarget_def Let_def blob_size_def n u8_set_fresh
    by (simp add: fl blob_size_def)
qed

lemma padToTarget_large:
  "\<not> blob_size b < PREFERRED_KB * 1024 \<Longrightarrow> padToTarget b = Inr (Some b, blob_size b)"
  by (simp add: padToTarget_def)

lemma padToTarget_total: "\<exists>a. padToTarget b = Inr (Some a, blob_size a)"
proof (cases "blob_size b < PREFERRED_KB * 1024")
  case True
  then show ?thesis by (simp add: padToTarget_small blob_size_def)
next
  case False
  then show ?thesis by (simp add: padToTarget_large)
qed

subsection \<open>The whole function\<close>

lemma tryBlock_encoded:
  assumes "loadImage e src = Some img" and "getContext e ''2d''"
    and "toBlob e (paintCanvas sizedCanvas img) ''image/jpeg'' 1 = Some b"
  shows "tryBlock e src =
    ([CallImageLoad src, CallGetContext ''2d'',
      CallToBlob (paintCanvas sizedCanvas img) ''image/jpeg'' 1], padToTarget b)"
  using assms by (simp add: tryBlock_def)

lemma processImage_small:
  assumes "image' s = Some src \<and> src \<noteq> []" and "loadImage e src = Some img" and "getContext e ''2d''"
    and "toBlob e (paintCanvas sizedCanvas img) ''image/jpeg'' 1 = Some b"
    and "blob_size b < PREFERRED_KB * 1024"
  shows "processedImage (processImage e s) =
      Some \<lparr>blob_bytes = blob_bytes b @
               map (\<lambda>j. of_nat (j mod 255)) [blob_size b..<PREFERRED_KB * 1024],
            blob_type = ''image/jpeg''\<rparr>"
    and "processedSize (processImage e s) = Some (PREFERRED_KB * 1024)"
    and "error (processImage e s) = None"
  using assms
  by (simp_all add: processImage_def tryBlock_encoded padToTarget_small)

lemma processImage_large:
  assumes "image' s = Some src \<and> src \<noteq> []" and "loadImage e src = Some img" and "getContext e ''2d''"
    and "toBlob e (paintCanvas sizedCanvas img) ''image/jpeg'' 1 = Some b"
    and "\<not> blob_size b < PREFERRED_KB * 1024"
  shows "processedImage (processImage e s) = Some b"
    and "processedSize (processImage e s) = Some (blob_size b)"
    and "error (processImage e s) = None"
  using assms
  by (simp_all add: processImage_def tryBlock_encoded padToTarget_large)

lemma processImage_failed:
  assumes "image' s = Some src \<and> src \<noteq> []"
    and "loadImage e src = None \<or> \<not> getContext e ''2d'' \<or>
         (\<exists>img. loadImage e src = Some img \<and>
            toBlob e (paintCanvas sizedCanvas img) ''image/jpeg'' 1 = None)"
  shows "processedImage (processImage e s) = processedImage s"
    and "processedSize (processImage e s) = processedSize s"
    and "error (processImage e s) = Some ProcessingFailedPleaseRetry"
    and "processing (processImage e s) = False"
    and "length (console (processImage e s)) = length (console s) + 1"
  using assms
  by (auto simp: processImage_def tryBlock_def split: option.splits)

subsection \<open>The filler bytes\<close>

lemma filler_byte_value: "unat (of_nat (j mod 255) :: byte) = j mod 255"
proof -
  have "j mod 255 < 256" by (rule less_trans [of _ 255]) simp_all
  then show ?thesis by (simp add: unat_of_nat)
qed

lemma filler_neighbours_differ:
  "(of_nat (j mod 255) :: byte) \<noteq> of_nat (Suc j mod 255)"
proof
  assume "(of_nat (j mod 255) :: byte) = of_nat (Suc j mod 255)"
  then have "unat (of_nat (j mod 255) :: byte) = unat (of_nat (Suc j mod 255) :: byte)"
    by simp
  then have "j mod 255 = Suc j mod 255" by (simp only: filler_byte_value)
  moreover have "Suc j mod 255 = (if Suc (j mod 255) = 255 then 0 else Suc (j mod 255))"
    by (rule mod_Suc)
  ultimately show False by (simp split: if_splits)
qed

lemma filler_last_nonzero:
  "(of_nat ((PREFERRED_KB * 1024 - 1) mod 255) :: byte) \<noteq> 0"
  by (simp add: PREFERRED_KB_def)

lemma filler_length:
  "length (map (\<lambda>j. of_nat (j mod 255) :: byte) [l..<p]) = p - l"
  by simp

subsection \<open>The concrete inputs\<close>

lemma uploaded_image: "image' uploaded = Some photo_url \<and> photo_url \<noteq> []"
  by (simp add: uploaded_def photo_url_def)

lemma browser_load: "loadImage (browser bs) photo_url = Some photo"
  by (simp add: browser_def)

lemma browser_context: "getContext (browser bs) ''2d''"
  by (simp add: browser_def)

lemma browser_blob: "toBlob (browser bs) c ''image/jpeg'' 1 = Some (jpeg_of bs)"
  by (simp add: browser_def)

lemma blob_size_jpeg_of: "blob_size (jpeg_of bs) = length bs"
  by (simp add: blob_size_def jpeg_of_def)

lemma tiny_jpeg_small: "blob_size (jpeg_of tiny_jpeg) < PREFERRED_KB * 1024"
  by (simp add: blob_size_jpeg_of tiny_jpeg_def PREFERRED_KB_def)

subsection \<open>The size-targeting encoder\<close>

text \<open>
  The theorems below speak of an invocation that passes the guard of line 49 (an image
  is loaded: \<open>image' s = Some src\<close> with \<open>src\<close> not empty), and name the decoded
  image \<open>img\<close> and the baseline encode \<open>b\<close> that \<^verbatim>\<open>canvas.toBlob\<close> returns for the
  painted canvas at quality 1; \<open>L0\<close> is \<open>blob_size b\<close>.
\<close>

text \<open>
  Claim C1. When the image decodes, the context exists and the baseline encode \<open>b\<close> at
  maximum quality is shorter than \<open>PREFERRED_KB * 1024 = 204800\<close> bytes, the artifact
  stored by \<open>processImage\<close> has exactly that many bytes, that is the baseline length
  plus the padding length, and the size reported is the same number.
\<close>

theorem exact_hit:
  assumes "image' s = Some src \<and> src \<noteq> []" and "loadImage e src = Some img" and "getContext e ''2d''"
    and "toBlob e (paintCanvas sizedCanvas img) ''image/jpeg'' 1 = Some b"
    and "blob_size b < PREFERRED_KB * 1024"
  shows "\<exists>a. processedImage (processImage e s) = Some a \<and>
           blob_size a = PREFERRED_KB * 1024 \<and>
           blob_size a = 200 * 1024 \<and>
           blob_size a = blob_size b + (PREFERRED_KB * 1024 - blob_size b) \<and>
           processedSize (processImage e s) = Some (blob_size a)"
proof -
  let ?a = "\<lparr>blob_bytes = blob_bytes b @
               map (\<lambda>j. of_nat (j mod 255)) [blob_size b..<PREFERRED_KB * 1024],
            blob_type = ''image/jpeg''\<rparr>"
  have len: "blob_size ?a = PREFERRED_KB * 1024"
    using assms(5) by (simp add: blob_size_def)
  have "processedImage (processImage e s) = Some ?a"
    by (rule processImage_small(1) [OF assms])
  moreover have "processedSize (processImage e s) = Some (blob_size ?a)"
    unfolding len by (rule processImage_small(2) [OF assms])
  moreover have "blob_size ?a = 200 * 1024"
    unfolding len by (simp add: PREFERRED_KB_def)
  moreover have "blob_size ?a = blob_size b + (PREFERRED_KB * 1024 - blob_size b)"
    unfolding len using assms(5) by simp
  ultimately show ?thesis using len by blast
qed

text \<open>A four-byte baseline is padded to 204800 bytes.\<close>

theorem exact_hit_witness:
  "\<exists>a. processedImage (processImage (browser tiny_jpeg) uploaded) = Some a \<and>
       blob_size a = 204800 \<and>
       processedSize (processImage (browser tiny_jpeg) uploaded) = Some 204800"
proof -
  obtain a where a: "processedImage (processImage (browser tiny_jpeg) uploaded) = Some a"
      "blob_size a = PREFERRED_KB * 1024"
      "processedSize (processImage (browser tiny_jpeg) uploaded) = Some (blob_size a)"
    using exact_hit [OF uploaded_image browser_load browser_context browser_blob
        tiny_jpeg_small] by blast
  have "blob_size a = 204800" using a(2) by (simp add: PREFERRED_KB_def)
  with a show ?thesis by simp
qed

text \<open>
  Claim C2. When the baseline encode has at least \<open>PREFERRED_KB * 1024\<close> bytes, the
  boundary case of equality included, the artifact stored is the baseline blob itself:
  the same bytes, the length \<open>L0\<close>, nothing appended.
\<close>

theorem passthrough:
  assumes "image' s = Some src \<and> src \<noteq> []" and "loadImage e src = Some img" and "getContext e ''2d''"
    and "toBlob e (paintCanvas sizedCanvas img) ''image/jpeg'' 1 = Some b"
    and "PREFERRED_KB * 1024 \<le> blob_size b"
  shows "processedImage (processImage e s) = Some b \<and>
         processedSize (processImage e s) = Some (blob_size b)"
proof -
  have ge: "\<not> blob_size b < PREFERRED_KB * 1024" using assms(5) by simp
  show ?thesis
    using processImage_large(1,2) [OF assms(1-4) ge] by simp
qed

text \<open>A baseline of exactly 204800 bytes is stored as it is.\<close>

theorem passthrough_witness:
  "blob_size (jpeg_of (replicate 204800 0)) = PREFERRED_KB * 1024 \<and>
   processedImage (processImage (browser (replicate 204800 0)) uploaded) =
     Some (jpeg_of (replicate 204800 0)) \<and>
   processedSize (processImage (browser (replicate 204800 0)) uploaded) = Some 204800"
proof -
  have eq: "blob_size (jpeg_of (replicate 204800 0)) = PREFERRED_KB * 1024"
    by (simp add: blob_size_jpeg_of PREFERRED_KB_def)
  then have ge: "PREFERRED_KB * 1024 \<le> blob_size (jpeg_of (replicate 204800 0))"
    by simp
  show ?thesis
    using passthrough [OF uploaded_image browser_load browser_context browser_blob ge] eq
    by (simp add: PREFERRED_KB_def)
qed

text \<open>
  Claim C3. When the baseline encode is shorter than the target, the first \<open>L0\<close> bytes
  of the artifact are the baseline encode, and the artifact is the baseline followed by
  a tail of \<open>PREFERRED_KB * 1024 - L0\<close> bytes.
\<close>

theorem baseline_is_prefix:
  assumes "image' s = Some src \<and> src \<noteq> []" and "loadImage e src = Some img" and "getContext e ''2d''"
    and "toBlob e (paintCanvas sizedCanvas img) ''image/jpeg'' 1 = Some b"
    and "blob_size b < PREFERRED_KB * 1024"
  shows "\<exists>a. processedImage (processImage e s) = Some a \<and>
           take (blob_size b) (blob_bytes a) = blob_bytes b \<and>
           blob_bytes a = blob_bytes b @ drop (blob_size b) (blob_bytes a) \<and>
           length (drop (blob_size b) (blob_bytes a)) = PREFERRED_KB * 1024 - blob_size b"
proof -
  let ?a = "\<lparr>blob_bytes = blob_bytes b @
               map (\<lambda>j. of_nat (j mod 255)) [blob_size b..<PREFERRED_KB * 1024],
            blob_type = ''image/jpeg''\<rparr>"
  have "processedImage (processImage e s) = Some ?a"
    by (rule processImage_small(1) [OF assms])
  moreover have "take (blob_size b) (blob_bytes ?a) = blob_bytes b"
    by (simp add: blob_size_def)
  moreover have "blob_bytes ?a = blob_bytes b @ drop (blob_size b) (blob_bytes ?a)"
    by (simp add: blob_size_def)
  moreover have "length (drop (blob_size b) (blob_bytes ?a)) =
      PREFERRED_KB * 1024 - blob_size b"
    by (simp add: blob_size_def)
  ultimately show ?thesis by blast
qed

text \<open>The four bytes of the baseline come first, 204796 bytes follow.\<close>

theorem baseline_is_prefix_witness:
  "\<exists>a. processedImage (processImage (browser tiny_jpeg) uploaded) = Some a \<and>
       take 4 (blob_bytes a) = [255, 216, 255, 217] \<and>
       length (drop 4 (blob_bytes a)) = 204796"
proof -
  obtain a where a: "processedImage (processImage (browser tiny_jpeg) uploaded) = Some a"
      "take (blob_size (jpeg_of tiny_jpeg)) (blob_bytes a) = blob_bytes (jpeg_of tiny_jpeg)"
      "length (drop (blob_size (jpeg_of tiny_jpeg)) (blob_bytes a)) =
         PREFERRED_KB * 1024 - blob_size (jpeg_of tiny_jpeg)"
    using baseline_is_prefix [OF uploaded_image browser_load browser_context browser_blob
        tiny_jpeg_small] by blast
  have four: "blob_size (jpeg_of tiny_jpeg) = 4"
    by (simp add: blob_size_jpeg_of tiny_jpeg_def)
  have "take 4 (blob_bytes a) = [255, 216, 255, 217]"
    using a(2) unfolding four by (simp add: jpeg_of_def tiny_jpeg_def)
  moreover have "length (drop 4 (blob_bytes a)) = 204796"
    using a(3) unfolding four by (simp add: PREFERRED_KB_def)
  ultimately show ?thesis using a(1) by blast
qed

subsection \<open>The shape of the filler\<close>

lemma filler_not_all_zero:
  assumes "l < PREFERRED_KB * 1024"
  shows "\<not> all_zero (map (\<lambda>j. of_nat (j mod 255)) [l..<PREFERRED_KB * 1024])"
proof
  assume z: "all_zero (map (\<lambda>j. of_nat (j mod 255)) [l..<PREFERRED_KB * 1024])"
  have "PREFERRED_KB * 1024 - 1 \<in> set [l..<PREFERRED_KB * 1024]"
    using assms by auto
  with z have "(of_nat ((PREFERRED_KB * 1024 - 1) mod 255) :: byte) = 0"
    unfolding all_zero_def list_all_iff by (simp del: set_upt)
  with filler_last_nonzero show False by simp
qed

lemma filler_not_all_identical:
  assumes "l + 2 \<le> p"
  shows "\<not> all_identical (map (\<lambda>j. of_nat (j mod 255)) [l..<p])"
proof -
  have "[l..<p] = l # Suc l # [Suc (Suc l)..<p]"
    using assms by (simp add: upt_conv_Cons)
  then show ?thesis
    using filler_neighbours_differ [of l] by (simp add: all_identical_def)
qed

lemma filler_two_values:
  assumes "l + 2 \<le> p"
  shows "2 \<le> card (set (map (\<lambda>j. of_nat (j mod 255) :: byte) [l..<p]))"
proof -
  let ?f = "\<lambda>j. of_nat (j mod 255) :: byte"
  have "{?f l, ?f (Suc l)} \<subseteq> set (map ?f [l..<p])"
    using assms by auto
  then have "card {?f l, ?f (Suc l)} \<le> card (set (map ?f [l..<p]))"
    by (intro card_mono) simp_all
  moreover have "card {?f l, ?f (Suc l)} = 2"
    using filler_neighbours_differ [of l] by simp
  ultimately show ?thesis by simp
qed

lemma filler_below_255:
  assumes "x \<in> set (map (\<lambda>j. of_nat (j mod 255) :: byte) [l..<p])"
  shows "unat x \<le> 254" and "x \<noteq> 255"
proof -
  obtain j where x: "x = of_nat (j mod 255)" using assms by auto
  have "j mod 255 < 255" by simp
  then show "unat x \<le> 254" unfolding x filler_byte_value by simp
  then show "x \<noteq> 255" by auto
qed

lemma padded_nth:
  assumes "length xs \<le> i" and "i < p"
  shows "(xs @ map f [length xs..<p]) ! i = f i"
proof -
  have "(xs @ map f [length xs..<p]) ! i = map f [length xs..<p] ! (i - length xs)"
    using assms by (simp add: nth_append)
  also have "\<dots> = f i" using assms by simp
  finally show ?thesis .
qed

text \<open>
  Claim C4, as amended. In every padded artifact the byte at each offset \<open>i\<close> with
  \<open>L0 \<le> i < PREFERRED_KB * 1024\<close> is \<open>i mod 255\<close>; the filler is never zero
  throughout; and it is not one repeated byte value whenever it has at least two bytes.
\<close>

theorem filler_rule:
  assumes "image' s = Some src \<and> src \<noteq> []" and "loadImage e src = Some img" and "getContext e ''2d''"
    and "toBlob e (paintCanvas sizedCanvas img) ''image/jpeg'' 1 = Some b"
    and "blob_size b < PREFERRED_KB * 1024"
  shows "\<exists>a. processedImage (processImage e s) = Some a \<and>
           (\<forall>i. blob_size b \<le> i \<and> i < PREFERRED_KB * 1024 \<longrightarrow>
                  blob_bytes a ! i = of_nat (i mod 255) \<and>
                  unat (blob_bytes a ! i) = i mod 255) \<and>
           \<not> all_zero (drop (blob_size b) (blob_bytes a)) \<and>
           (2 \<le> PREFERRED_KB * 1024 - blob_size b \<longrightarrow>
              \<not> all_identical (drop (blob_size b) (blob_bytes a)))"
proof -
  let ?f = "\<lambda>j. of_nat (j mod 255) :: byte"
  let ?P = "PREFERRED_KB * 1024"
  let ?a = "\<lparr>blob_bytes = blob_bytes b @ map ?f [blob_size b..<?P],
            blob_type = ''image/jpeg''\<rparr>"
  have stored: "processedImage (processImage e s) = Some ?a"
    by (rule processImage_small(1) [OF assms])
  have tail: "drop (blob_size b) (blob_bytes ?a) = map ?f [blob_size b..<?P]"
    by (simp add: blob_size_def)
  have nth: "blob_bytes ?a ! i = ?f i" if "blob_size b \<le> i" "i < ?P" for i
    using that padded_nth [of "blob_bytes b" i ?P ?f] by (simp add: blob_size_def)
  have "\<forall>i. blob_size b \<le> i \<and> i < ?P \<longrightarrow>
      blob_bytes ?a ! i = ?f i \<and> unat (blob_bytes ?a ! i) = i mod 255"
    using nth filler_byte_value by simp
  moreover have "\<not> all_zero (drop (blob_size b) (blob_bytes ?a))"
    unfolding tail by (rule filler_not_all_zero [OF assms(5)])
  moreover have "2 \<le> ?P - blob_size b \<longrightarrow>
      \<not> all_identical (drop (blob_size b) (blob_bytes ?a))"
  proof
    assume "2 \<le> ?P - blob_size b"
    then have "blob_size b + 2 \<le> ?P" by simp
    then show "\<not> all_identical (drop (blob_size b) (blob_bytes ?a))"
      unfolding tail by (rule filler_not_all_identical)
  qed
  ultimately show ?thesis using stored by blast
qed

text \<open>After a four-byte baseline: offset 4 holds 4, offset 255 holds 0, the last offset holds 34.\<close>

theorem filler_rule_witness:
  "\<exists>a. processedImage (processImage (browser tiny_jpeg) uploaded) = Some a \<and>
       blob_bytes a ! 4 = 4 \<and> blob_bytes a ! 255 = 0 \<and> blob_bytes a ! 204799 = 34 \<and>
       \<not> all_zero (drop 4 (blob_bytes a)) \<and> \<not> all_identical (drop 4 (blob_bytes a))"
proof -
  have four: "blob_size (jpeg_of tiny_jpeg) = 4"
    by (simp add: blob_size_jpeg_of tiny_jpeg_def)
  obtain a where a: "processedImage (processImage (browser tiny_jpeg) uploaded) = Some a"
      "\<forall>i. 4 \<le> i \<and> i < PREFERRED_KB * 1024 \<longrightarrow> blob_bytes a ! i = of_nat (i mod 255)"
      "\<not> all_zero (drop 4 (blob_bytes a))"
      "2 \<le> PREFERRED_KB * 1024 - 4 \<longrightarrow> \<not> all_identical (drop 4 (blob_bytes a))"
    using filler_rule [OF uploaded_image browser_load browser_context browser_blob
        tiny_jpeg_small] unfolding four by blast
  have "blob_bytes a ! 4 = 4" using a(2) [rule_format, of 4] by (simp add: PREFERRED_KB_def)
  moreover have "blob_bytes a ! 255 = 0"
    using a(2) [rule_format, of 255] by (simp add: PREFERRED_KB_def)
  moreover have "blob_bytes a ! 204799 = 34"
    using a(2) [rule_format, of 204799] by (simp add: PREFERRED_KB_def)
  moreover have "\<not> all_identical (drop 4 (blob_bytes a))"
    using a(4) by (simp add: PREFERRED_KB_def)
  ultimately show ?thesis using a(1,3) by blast
qed

text \<open>
  Claim C4 as stated says that the filler is never all-identical bytes. A baseline encode
  of 204799 bytes is padded by the single byte \<open>204799 mod 255 = 34\<close>, and a filler of
  one byte is one byte value repeated.
\<close>

theorem filler_single_byte_counterexample:
  "blob_size (jpeg_of (replicate 204799 0)) < PREFERRED_KB * 1024 \<and>
   processedImage (processImage (browser (replicate 204799 0)) uploaded) =
     Some (jpeg_of (replicate 204799 0 @ [34])) \<and>
   drop 204799 (replicate 204799 0 @ [34]) = [34 :: byte] \<and>
   all_identical (drop 204799 (replicate 204799 0 @ [34]))"
proof -
  have small: "blob_size (jpeg_of (replicate 204799 0)) < PREFERRED_KB * 1024"
    by (simp add: blob_size_jpeg_of PREFERRED_KB_def)
  have "processedImage (processImage (browser (replicate 204799 0)) uploaded) =
      Some \<lparr>blob_bytes = blob_bytes (jpeg_of (replicate 204799 0)) @
               map (\<lambda>j. of_nat (j mod 255))
                 [blob_size (jpeg_of (replicate 204799 0))..<PREFERRED_KB * 1024],
            blob_type = ''image/jpeg''\<rparr>"
    by (rule processImage_small(1)
        [OF uploaded_image browser_load browser_context browser_blob small])
  moreover have "map (\<lambda>j. of_nat (j mod 255))
      [blob_size (jpeg_of (replicate 204799 0))..<PREFERRED_KB * 1024] = [34 :: byte]"
    unfolding blob_size_jpeg_of by (simp add: PREFERRED_KB_def)
  ultimately have "processedImage (processImage (browser (replicate 204799 0)) uploaded) =
      Some (jpeg_of (replicate 204799 0 @ [34]))"
    by (simp add: jpeg_of_def)
  moreover have "drop 204799 (replicate 204799 0 @ [34]) = [34 :: byte]"
    by simp
  ultimately show ?thesis using small by (simp add: all_identical_def)
qed

text \<open>
  Claim C5. A padding region of at least two bytes holds at least two distinct byte
  values: its first two bytes already differ.
\<close>

theorem filler_non_degenerate:
  assumes "image' s = Some src \<and> src \<noteq> []" and "loadImage e src = Some img" and "getContext e ''2d''"
    and "toBlob e (paintCanvas sizedCanvas img) ''image/jpeg'' 1 = Some b"
    and "blob_size b < PREFERRED_KB * 1024"
    and "2 \<le> PREFERRED_KB * 1024 - blob_size b"
  shows "\<exists>a. processedImage (processImage e s) = Some a \<and>
           2 \<le> card (set (drop (blob_size b) (blob_bytes a))) \<and>
           blob_bytes a ! blob_size b \<noteq> blob_bytes a ! (blob_size b + 1)"
proof -
  let ?f = "\<lambda>j. of_nat (j mod 255) :: byte"
  let ?P = "PREFERRED_KB * 1024"
  let ?a = "\<lparr>blob_bytes = blob_bytes b @ map ?f [blob_size b..<?P],
            blob_type = ''image/jpeg''\<rparr>"
  have stored: "processedImage (processImage e s) = Some ?a"
    by (rule processImage_small(1) [OF assms(1-5)])
  have tail: "drop (blob_size b) (blob_bytes ?a) = map ?f [blob_size b..<?P]"
    by (simp add: blob_size_def)
  have le: "blob_size b + 2 \<le> ?P" using assms(6) by simp
  have "2 \<le> card (set (drop (blob_size b) (blob_bytes ?a)))"
    unfolding tail by (rule filler_two_values [OF le])
  moreover have "blob_bytes ?a ! blob_size b = ?f (blob_size b)"
    using le padded_nth [of "blob_bytes b" "blob_size b" ?P ?f] by (simp add: blob_size_def)
  moreover have "blob_bytes ?a ! (blob_size b + 1) = ?f (Suc (blob_size b))"
    using le padded_nth [of "blob_bytes b" "blob_size b + 1" ?P ?f]
    by (simp add: blob_size_def)
  ultimately show ?thesis
    using stored filler_neighbours_differ [of "blob_size b"] by auto
qed

text \<open>A baseline of 204798 bytes leaves a padding region of two bytes.\<close>

theorem filler_non_degenerate_witness:
  "\<exists>a. processedImage (processImage (browser (replicate 204798 0)) uploaded) = Some a \<and>
       2 \<le> card (set (drop 204798 (blob_bytes a)))"
proof -
  have len: "blob_size (jpeg_of (replicate 204798 0)) = 204798"
    by (simp add: blob_size_jpeg_of)
  have small: "blob_size (jpeg_of (replicate 204798 0)) < PREFERRED_KB * 1024"
    unfolding len by (simp add: PREFERRED_KB_def)
  have two: "2 \<le> PREFERRED_KB * 1024 - blob_size (jpeg_of (replicate 204798 0))"
    unfolding len by (simp add: PREFERRED_KB_def)
  show ?thesis
    using filler_non_degenerate [OF uploaded_image browser_load browser_context browser_blob
        small two] unfolding len by blast
qed

text \<open>
  Claim C10. Every filler byte is at most 254: the value 255 does not occur in the
  padding region.
\<close>

theorem filler_never_255:
  assumes "image' s = Some src \<and> src \<noteq> []" and "loadImage e src = Some img" and "getContext e ''2d''"
    and "toBlob e (paintCanvas sizedCanvas img) ''image/jpeg'' 1 = Some b"
    and "blob_size b < PREFERRED_KB * 1024"
  shows "\<exists>a. processedImage (processImage e s) = Some a \<and>
           (\<forall>x \<in> set (drop (blob_size b) (blob_bytes a)). unat x \<le> 254 \<and> x \<noteq> 255)"
proof -
  let ?f = "\<lambda>j. of_nat (j mod 255) :: byte"
  let ?P = "PREFERRED_KB * 1024"
  let ?a = "\<lparr>blob_bytes = blob_bytes b @ map ?f [blob_size b..<?P],
            blob_type = ''image/jpeg''\<rparr>"
  have stored: "processedImage (processImage e s) = Some ?a"
    by (rule processImage_small(1) [OF assms])
  have tail: "drop (blob_size b) (blob_bytes ?a) = map ?f [blob_size b..<?P]"
    by (simp add: blob_size_def)
  have "\<forall>x \<in> set (drop (blob_size b) (blob_bytes ?a)). unat x \<le> 254 \<and> x \<noteq> 255"
    unfolding tail using filler_below_255 by blast
  with stored show ?thesis by blast
qed

text \<open>The padding region after a four-byte baseline.\<close>

theorem filler_never_255_witness:
  "\<exists>a. processedImage (processImage (browser tiny_jpeg) uploaded) = Some a \<and>
       (\<forall>x \<in> set (drop 4 (blob_bytes a)). unat x \<le> 254 \<and> x \<noteq> 255)"
proof -
  have four: "blob_size (jpeg_of tiny_jpeg) = 4"
    by (simp add: blob_size_jpeg_of tiny_jpeg_def)
  show ?thesis
    using filler_never_255 [OF uploaded_image browser_load browser_context browser_blob
        tiny_jpeg_small] unfolding four by blast
qed

subsection \<open>The normalizer, determinism and failures\<close>

lemma browser_no_decode_load: "loadImage browser_no_decode src = None"
  by (simp add: browser_no_decode_def)

lemma browser_no_context_ctx: "\<not> getContext browser_no_context ''2d''"
  by (simp add: browser_no_context_def)

lemma browser_no_context_load: "loadImage browser_no_context photo_url = Some photo"
  by (simp add: browser_no_context_def browser_def)

lemma browser_no_blob_hyps:
  "loadImage browser_no_blob photo_url = Some photo"
  "getContext browser_no_blob ''2d''"
  "toBlob browser_no_blob c mime q = None"
  by (simp_all add: browser_no_blob_def browser_def)

lemma paintCanvas_sizedCanvas:
  "paintCanvas sizedCanvas img =
     \<lparr>width = 295, height = 413, fillStyle = ''#FFFFFF'',
      ops = [FillRect ''#FFFFFF'' 0 0 295 413,
             DrawImage img 0 0 (int (naturalWidth img)) (int (naturalHeight img))
               0 0 295 413]\<rparr>"
  by (simp add: paintCanvas_def sizedCanvas_def createElement_canvas_def fillRect_def
      drawImage_def TARGET_WIDTH_def TARGET_HEIGHT_def)

lemma processImage_calls_rendered:
  assumes "image' s = Some src \<and> src \<noteq> []" and "loadImage e src = Some img" and "getContext e ''2d''"
  shows "calls (processImage e s) =
    calls s @ [CallImageLoad src, CallGetContext ''2d'',
               CallToBlob (paintCanvas sizedCanvas img) ''image/jpeg'' 1]"
proof (cases "toBlob e (paintCanvas sizedCanvas img) ''image/jpeg'' 1")
  case None
  with assms have "tryBlock e src =
      ([CallImageLoad src, CallGetContext ''2d'',
        CallToBlob (paintCanvas sizedCanvas img) ''image/jpeg'' 1],
       Inl (Error ''Blob generation failed''))"
    by (simp add: tryBlock_def)
  with assms(1) show ?thesis by (simp add: processImage_def)
next
  case (Some b)
  obtain a where "padToTarget b = Inr (Some a, blob_size a)"
    using padToTarget_total by blast
  with assms(1) tryBlock_encoded [OF assms(2,3) Some] show ?thesis
    by (simp add: processImage_def)
qed

lemma processImage_keeps_image: "image' (processImage e s) = image' s"
proof (cases "image' s")
  case None
  then show ?thesis by (simp add: processImage_def)
next
  case (Some src)
  then show ?thesis
    by (simp add: processImage_def Let_def split: prod.splits sum.splits option.splits)
qed

lemma processImage_calls_failed:
  assumes "image' s = Some src \<and> src \<noteq> []"
    and "loadImage e src = None \<or> \<not> getContext e ''2d'' \<or>
         (\<exists>img. loadImage e src = Some img \<and>
            toBlob e (paintCanvas sizedCanvas img) ''image/jpeg'' 1 = None)"
  shows "\<exists>cs. calls (processImage e s) = calls s @ cs \<and>
           (cs = [CallImageLoad src] \<or>
            cs = [CallImageLoad src, CallGetContext ''2d''] \<or>
            (\<exists>r. cs = [CallImageLoad src, CallGetContext ''2d'',
                        CallToBlob r ''image/jpeg'' 1]))"
  using assms
  by (auto simp: processImage_def tryBlock_def split: option.splits)

lemma processImage_succeeded:
  assumes "image' s = Some src \<and> src \<noteq> []" and "loadImage e src = Some img" and "getContext e ''2d''"
    and "toBlob e (paintCanvas sizedCanvas img) ''image/jpeg'' 1 = Some b"
  shows "error (processImage e s) = None"
    and "processing (processImage e s) = False"
    and "\<exists>a. processedImage (processImage e s) = Some a \<and>
             processedSize (processImage e s) = Some (blob_size a)"
proof -
  obtain a where "padToTarget b = Inr (Some a, blob_size a)"
    using padToTarget_total by blast
  with assms(1) tryBlock_encoded [OF assms(2-4)]
  show "error (processImage e s) = None" "processing (processImage e s) = False"
    "\<exists>a. processedImage (processImage e s) = Some a \<and>
         processedSize (processImage e s) = Some (blob_size a)"
    by (simp_all add: processImage_def)
qed

text \<open>
  Claim C6, as amended. When the source image decodes and the 2D context of the canvas
  exists, the raster handed to the encoder is \<open>TARGET_WIDTH\<close> by
  \<open>TARGET_HEIGHT\<close>, that is 295 by 413. It is built by two drawing calls: a fill with
  \<open>#FFFFFF\<close> and then the source image, whole, drawn from the origin. The destination
  of each call is exactly the set of pixels of the canvas: no pixel is left out and the
  source rectangle is the full image.
\<close>

theorem normalized_raster:
  assumes "image' s = Some src \<and> src \<noteq> []" and "loadImage e src = Some img" and "getContext e ''2d''"
  shows "\<exists>raster. last (calls (processImage e s)) = CallToBlob raster ''image/jpeg'' 1 \<and>
           width raster = TARGET_WIDTH \<and> height raster = TARGET_HEIGHT \<and>
           width raster = 295 \<and> height raster = 413 \<and>
           ops raster =
             [FillRect ''#FFFFFF'' 0 0 (int (width raster)) (int (height raster)),
              DrawImage img 0 0 (int (naturalWidth img)) (int (naturalHeight img))
                0 0 (int (width raster)) (int (height raster))] \<and>
           (\<forall>op \<in> set (ops raster). \<forall>px py.
              dest_covers op px py =
                (0 \<le> px \<and> px < int (width raster) \<and> 0 \<le> py \<and> py < int (height raster)))"
proof -
  let ?r = "paintCanvas sizedCanvas img"
  have "last (calls (processImage e s)) = CallToBlob ?r ''image/jpeg'' 1"
    by (simp add: processImage_calls_rendered [OF assms])
  moreover have "width ?r = TARGET_WIDTH" "height ?r = TARGET_HEIGHT"
    by (simp_all add: paintCanvas_sizedCanvas TARGET_WIDTH_def TARGET_HEIGHT_def)
  moreover have "width ?r = 295" "height ?r = 413"
    by (simp_all add: paintCanvas_sizedCanvas)
  moreover have "ops ?r =
      [FillRect ''#FFFFFF'' 0 0 (int (width ?r)) (int (height ?r)),
       DrawImage img 0 0 (int (naturalWidth img)) (int (naturalHeight img))
         0 0 (int (width ?r)) (int (height ?r))]"
    by (simp add: paintCanvas_sizedCanvas)
  moreover have "\<forall>op \<in> set (ops ?r). \<forall>px py.
      dest_covers op px py =
        (0 \<le> px \<and> px < int (width ?r) \<and> 0 \<le> py \<and> py < int (height ?r))"
    by (simp add: paintCanvas_sizedCanvas)
  ultimately show ?thesis by blast
qed

text \<open>The raster of an 800 x 600 photo.\<close>

theorem normalized_raster_witness:
  "\<exists>raster. last (calls (processImage (browser tiny_jpeg) uploaded)) =
       CallToBlob raster ''image/jpeg'' 1 \<and>
     width raster = 295 \<and> height raster = 413 \<and>
     ops raster = [FillRect ''#FFFFFF'' 0 0 295 413, DrawImage photo 0 0 800 600 0 0 295 413]"
proof -
  obtain raster where r:
      "last (calls (processImage (browser tiny_jpeg) uploaded)) =
         CallToBlob raster ''image/jpeg'' 1"
      "width raster = 295" "height raster = 413"
      "ops raster =
         [FillRect ''#FFFFFF'' 0 0 (int (width raster)) (int (height raster)),
          DrawImage photo 0 0 (int (naturalWidth photo)) (int (naturalHeight photo))
            0 0 (int (width raster)) (int (height raster))]"
    using normalized_raster [OF uploaded_image browser_load browser_context] by blast
  have "ops raster =
      [FillRect ''#FFFFFF'' 0 0 295 413, DrawImage photo 0 0 800 600 0 0 295 413]"
    using r(4) unfolding r(2,3) by (simp add: photo_def)
  with r(1-3) show ?thesis by blast
qed

text \<open>
  Claim C6 as stated asks only that the source image decodes. In a browser that decodes
  the photo and returns no 2D context, line 66 throws: the services called are the
  decoder and \<^verbatim>\<open>getContext\<close> only, no raster reaches the encoder, no artifact is
  stored and the failure message is set.
\<close>

theorem no_context_no_raster_counterexample:
  "loadImage browser_no_context photo_url = Some photo \<and>
   calls (processImage browser_no_context uploaded) =
     [CallImageLoad photo_url, CallGetContext ''2d''] \<and>
   processedImage (processImage browser_no_context uploaded) = None \<and>
   error (processImage browser_no_context uploaded) = Some ProcessingFailedPleaseRetry"
proof -
  have t: "tryBlock browser_no_context photo_url =
      ([CallImageLoad photo_url, CallGetContext ''2d''],
       Inl (Error ''Canvas context failed''))"
    using browser_no_context_load browser_no_context_ctx by (simp add: tryBlock_def)
  have u: "image' uploaded = Some photo_url" "photo_url \<noteq> []"
    using uploaded_image by simp_all
  have "processImage browser_no_context uploaded =
      uploaded\<lparr>processing := False, error := Some ProcessingFailedPleaseRetry,
        console := console uploaded @ [Error ''Canvas context failed''],
        calls := calls uploaded @ [CallImageLoad photo_url, CallGetContext ''2d'']\<rparr>"
    using u t by (simp add: processImage_def)
  then show ?thesis
    using browser_no_context_load by (simp add: uploaded_def)
qed

text \<open>
  Claim C7. Two runs whose baseline encodes have the same bytes store artifacts with the
  same bytes and report the same size, whatever else differs between the runs: the
  artifact is a function of the baseline bytes and the constants.
\<close>

theorem deterministic_after_baseline:
  assumes "image' s1 = Some src1 \<and> src1 \<noteq> []" and "loadImage e1 src1 = Some img1"
    and "getContext e1 ''2d''"
    and "toBlob e1 (paintCanvas sizedCanvas img1) ''image/jpeg'' 1 = Some b1"
    and "image' s2 = Some src2 \<and> src2 \<noteq> []" and "loadImage e2 src2 = Some img2"
    and "getContext e2 ''2d''"
    and "toBlob e2 (paintCanvas sizedCanvas img2) ''image/jpeg'' 1 = Some b2"
    and "blob_bytes b1 = blob_bytes b2"
  shows "map_option blob_bytes (processedImage (processImage e1 s1)) =
         map_option blob_bytes (processedImage (processImage e2 s2)) \<and>
         processedImage (processImage e1 s1) \<noteq> None \<and>
         processedSize (processImage e1 s1) = processedSize (processImage e2 s2)"
proof (cases "blob_size b1 < PREFERRED_KB * 1024")
  case True
  then have small2: "blob_size b2 < PREFERRED_KB * 1024"
    using assms(9) by (simp add: blob_size_def)
  have eq: "blob_size b1 = blob_size b2" using assms(9) by (simp add: blob_size_def)
  show ?thesis
    using processImage_small(1,2) [OF assms(1-4) True]
      processImage_small(1,2) [OF assms(5-8) small2] assms(9) eq
    by simp
next
  case False
  then have large2: "\<not> blob_size b2 < PREFERRED_KB * 1024"
    using assms(9) by (simp add: blob_size_def)
  have eq: "blob_size b1 = blob_size b2" using assms(9) by (simp add: blob_size_def)
  show ?thesis
    using processImage_large(1,2) [OF assms(1-4) False]
      processImage_large(1,2) [OF assms(5-8) large2] assms(9) eq
    by simp
qed

text \<open>A second invocation on the state the first one left stores the same bytes.\<close>

theorem deterministic_after_baseline_witness:
  "map_option blob_bytes (processedImage (processImage (browser tiny_jpeg) uploaded)) =
   map_option blob_bytes
     (processedImage
        (processImage (browser tiny_jpeg) (processImage (browser tiny_jpeg) uploaded))) \<and>
   processedImage (processImage (browser tiny_jpeg) uploaded) \<noteq> None"
proof -
  have again: "image' (processImage (browser tiny_jpeg) uploaded) = Some photo_url \<and>
      photo_url \<noteq> []"
    by (simp add: processImage_keeps_image uploaded_image)
  show ?thesis
    using deterministic_after_baseline [OF uploaded_image browser_load browser_context
        browser_blob again browser_load browser_context browser_blob refl]
    by simp
qed

text \<open>
  Claim C8. \<open>MIN_KB\<close> and \<open>MAX_KB\<close> raise no error. An invocation ends without an
  error exactly when decoding, the context and the encoder succeed, whatever the length
  of the baseline encode; and a baseline encode longer than \<open>MAX_KB * 1024\<close> bytes
  is stored as it is, with its length \<open>L0\<close>.
\<close>

theorem bounds_not_enforced:
  assumes "image' s = Some src \<and> src \<noteq> []"
  shows "(error (processImage e s) = None) =
           (\<exists>img b. loadImage e src = Some img \<and> getContext e ''2d'' \<and>
              toBlob e (paintCanvas sizedCanvas img) ''image/jpeg'' 1 = Some b) \<and>
         (\<forall>img b. loadImage e src = Some img \<and> getContext e ''2d'' \<and>
              toBlob e (paintCanvas sizedCanvas img) ''image/jpeg'' 1 = Some b \<and>
              MAX_KB * 1024 < blob_size b \<longrightarrow>
              processedImage (processImage e s) = Some b \<and>
              processedSize (processImage e s) = Some (blob_size b) \<and>
              error (processImage e s) = None)"
proof -
  let ?ok = "\<exists>img b. loadImage e src = Some img \<and> getContext e ''2d'' \<and>
      toBlob e (paintCanvas sizedCanvas img) ''image/jpeg'' 1 = Some b"
  have first: "(error (processImage e s) = None) = ?ok"
  proof
    assume none: "error (processImage e s) = None"
    show ?ok
    proof (rule ccontr)
      assume "\<not> ?ok"
      then have "loadImage e src = None \<or> \<not> getContext e ''2d'' \<or>
          (\<exists>img. loadImage e src = Some img \<and>
             toBlob e (paintCanvas sizedCanvas img) ''image/jpeg'' 1 = None)"
        by (cases "loadImage e src") auto
      from processImage_failed(3) [OF assms this] none show False by simp
    qed
  next
    assume ?ok
    then show "error (processImage e s) = None"
      using processImage_succeeded(1) [OF assms] by blast
  qed
  have second: "processedImage (processImage e s) = Some b \<and>
      processedSize (processImage e s) = Some (blob_size b) \<and>
      error (processImage e s) = None"
    if l: "loadImage e src = Some img" and g: "getContext e ''2d''"
      and t: "toBlob e (paintCanvas sizedCanvas img) ''image/jpeg'' 1 = Some b"
      and m: "MAX_KB * 1024 < blob_size b" for img b
  proof -
    have large: "\<not> blob_size b < PREFERRED_KB * 1024"
      using m by (simp add: MAX_KB_def PREFERRED_KB_def)
    show ?thesis using processImage_large [OF assms l g t large] by simp
  qed
  show ?thesis
  proof (rule conjI [OF first], intro allI impI)
    fix img b
    assume "loadImage e src = Some img \<and> getContext e ''2d'' \<and>
      toBlob e (paintCanvas sizedCanvas img) ''image/jpeg'' 1 = Some b \<and>
      MAX_KB * 1024 < blob_size b"
    then show "processedImage (processImage e s) = Some b \<and>
      processedSize (processImage e s) = Some (blob_size b) \<and>
      error (processImage e s) = None"
      using second [of img b] by blast
  qed
qed

text \<open>A baseline encode of 300000 bytes, above 250 * 1024, is stored without an error.\<close>

theorem bounds_not_enforced_witness:
  "MAX_KB * 1024 < blob_size (jpeg_of (replicate 300000 0)) \<and>
   processedImage (processImage (browser (replicate 300000 0)) uploaded) =
     Some (jpeg_of (replicate 300000 0)) \<and>
   processedSize (processImage (browser (replicate 300000 0)) uploaded) = Some 300000 \<and>
   error (processImage (browser (replicate 300000 0)) uploaded) = None"
proof -
  have big: "MAX_KB * 1024 < blob_size (jpeg_of (replicate 300000 0))"
    by (simp add: blob_size_jpeg_of MAX_KB_def)
  have "processedImage (processImage (browser (replicate 300000 0)) uploaded) =
      Some (jpeg_of (replicate 300000 0)) \<and>
    processedSize (processImage (browser (replicate 300000 0)) uploaded) =
      Some (blob_size (jpeg_of (replicate 300000 0))) \<and>
    error (processImage (browser (replicate 300000 0)) uploaded) = None"
    using bounds_not_enforced [OF uploaded_image, of "browser (replicate 300000 0)"]
      browser_load browser_context browser_blob big
    by blast
  with big show ?thesis by (simp add: blob_size_jpeg_of)
qed

text \<open>
  Claim C9. When decoding fails, or the context is missing, or the encoder returns
  nothing, the invocation stores no artifact and no size (both fields keep the value
  they had), sets the one message of \<open>processImage\<close>, logs one error and has called
  each service at most once. Otherwise it ends without an error and with a complete
  artifact and its size. There is no third outcome.
\<close>

theorem all_or_nothing:
  assumes "image' s = Some src \<and> src \<noteq> []"
  shows "(loadImage e src = None \<or> \<not> getContext e ''2d'' \<or>
           (\<exists>img. loadImage e src = Some img \<and>
              toBlob e (paintCanvas sizedCanvas img) ''image/jpeg'' 1 = None) \<longrightarrow>
            processedImage (processImage e s) = processedImage s \<and>
            processedSize (processImage e s) = processedSize s \<and>
            error (processImage e s) = Some ProcessingFailedPleaseRetry \<and>
            processing (processImage e s) = False \<and>
            length (console (processImage e s)) = length (console s) + 1 \<and>
            (\<exists>cs. calls (processImage e s) = calls s @ cs \<and>
               (cs = [CallImageLoad src] \<or>
                cs = [CallImageLoad src, CallGetContext ''2d''] \<or>
                (\<exists>r. cs = [CallImageLoad src, CallGetContext ''2d'',
                            CallToBlob r ''image/jpeg'' 1])))) \<and>
         (\<not> (loadImage e src = None \<or> \<not> getContext e ''2d'' \<or>
              (\<exists>img. loadImage e src = Some img \<and>
                 toBlob e (paintCanvas sizedCanvas img) ''image/jpeg'' 1 = None)) \<longrightarrow>
            error (processImage e s) = None \<and>
            processing (processImage e s) = False \<and>
            (\<exists>a. processedImage (processImage e s) = Some a \<and>
               processedSize (processImage e s) = Some (blob_size a)))"
proof -
  let ?failed = "loadImage e src = None \<or> \<not> getContext e ''2d'' \<or>
      (\<exists>img. loadImage e src = Some img \<and>
         toBlob e (paintCanvas sizedCanvas img) ''image/jpeg'' 1 = None)"
  have failure: "processedImage (processImage e s) = processedImage s \<and>
      processedSize (processImage e s) = processedSize s \<and>
      error (processImage e s) = Some ProcessingFailedPleaseRetry \<and>
      processing (processImage e s) = False \<and>
      length (console (processImage e s)) = length (console s) + 1 \<and>
      (\<exists>cs. calls (processImage e s) = calls s @ cs \<and>
         (cs = [CallImageLoad src] \<or>
          cs = [CallImageLoad src, CallGetContext ''2d''] \<or>
          (\<exists>r. cs = [CallImageLoad src, CallGetContext ''2d'',
                      CallToBlob r ''image/jpeg'' 1])))" if f: ?failed
    using processImage_failed [OF assms f] processImage_calls_failed [OF assms f]
    by (intro conjI)
  have success: "error (processImage e s) = None \<and>
      processing (processImage e s) = False \<and>
      (\<exists>a. processedImage (processImage e s) = Some a \<and>
         processedSize (processImage e s) = Some (blob_size a))" if n: "\<not> ?failed"
  proof -
    from n obtain img b where ok: "loadImage e src = Some img" "getContext e ''2d''"
        "toBlob e (paintCanvas sizedCanvas img) ''image/jpeg'' 1 = Some b"
      by auto
    show ?thesis using processImage_succeeded [OF assms ok] by (intro conjI)
  qed
  show ?thesis
    by (rule conjI) (rule impI, erule failure, rule impI, erule success)
qed

text \<open>The three failures, each from the state right after the upload, and a success.\<close>

theorem all_or_nothing_witness:
  "(processedImage (processImage browser_no_decode uploaded) = None \<and>
    error (processImage browser_no_decode uploaded) = Some ProcessingFailedPleaseRetry) \<and>
   (processedImage (processImage browser_no_context uploaded) = None \<and>
    error (processImage browser_no_context uploaded) = Some ProcessingFailedPleaseRetry) \<and>
   (processedImage (processImage browser_no_blob uploaded) = None \<and>
    error (processImage browser_no_blob uploaded) = Some ProcessingFailedPleaseRetry) \<and>
   (processedImage (processImage (browser tiny_jpeg) uploaded) \<noteq> None \<and>
    error (processImage (browser tiny_jpeg) uploaded) = None)"
proof -
  have none: "processedImage uploaded = None" by (simp add: uploaded_def)
  have "processedImage (processImage browser_no_decode uploaded) = None \<and>
      error (processImage browser_no_decode uploaded) = Some ProcessingFailedPleaseRetry"
    using all_or_nothing [OF uploaded_image, of browser_no_decode]
      browser_no_decode_load [of photo_url] none by simp
  moreover have "processedImage (processImage browser_no_context uploaded) = None \<and>
      error (processImage browser_no_context uploaded) = Some ProcessingFailedPleaseRetry"
    using all_or_nothing [OF uploaded_image, of browser_no_context]
      browser_no_context_ctx none by simp
  moreover have "processedImage (processImage browser_no_blob uploaded) = None \<and>
      error (processImage browser_no_blob uploaded) = Some ProcessingFailedPleaseRetry"
    using all_or_nothing [OF uploaded_image, of browser_no_blob]
      browser_no_blob_hyps none by simp
  moreover have "processedImage (processImage (browser tiny_jpeg) uploaded) \<noteq> None \<and>
      error (processImage (browser tiny_jpeg) uploaded) = None"
    using all_or_nothing [OF uploaded_image, of "browser tiny_jpeg"]
      browser_load [of tiny_jpeg] browser_context [of tiny_jpeg]
      browser_blob [of tiny_jpeg] by auto
  ultimately show ?thesis by blast
qed

end
